theory Spec2Isabelle
  imports Main "HOL-Library.Sublist"
begin

section \<open>Run-time values of the directive's binding\<close>

text \<open>
  The directive receives its bound value from a template at run time, so the value can
  have any JavaScript shape, whatever the TypeScript type \<open>PermissionValue\<close> says.
  Objects are association lists from property names to values; numbers are integers
  (only their truthiness is ever inspected).
\<close>

datatype jsval =
    JUndefined
  | JNull
  | JBool bool
  | JNum int
  | JStr string
  | JArr "jsval list"
  | JObj "(string \<times> jsval) list"

text \<open>
  The only exception the directive's own code can raise is the \<open>TypeError\<close> of reading a
  property of \<open>null\<close> or \<open>undefined\<close>; it carries the name of the property read.
\<close>

datatype js_error = TypeError string

text \<open>The \<open>typeof\<close> operator.\<close>

fun typeof :: "jsval \<Rightarrow> string" where
  "typeof JUndefined = ''undefined''"
| "typeof JNull = ''object''"
| "typeof (JBool b) = ''boolean''"
| "typeof (JNum n) = ''number''"
| "typeof (JStr s) = ''string''"
| "typeof (JArr xs) = ''object''"
| "typeof (JObj kvs) = ''object''"

text \<open>\<open>Array.isArray\<close>, and the elements of an array value.\<close>

fun isArray :: "jsval \<Rightarrow> bool" where
  "isArray (JArr xs) = True"
| "isArray v = False"

fun array_items :: "jsval \<Rightarrow> jsval list" where
  "array_items (JArr xs) = xs"
| "array_items v = []"

text \<open>The characters of a string value (used only after a \<open>typeof\<close> test).\<close>

fun string_of :: "jsval \<Rightarrow> string" where
  "string_of (JStr s) = s"
| "string_of v = []"

text \<open>Conversion to boolean, as done by \<open>!\<close>, \<open>&&\<close>, \<open>||\<close> and \<open>if\<close>.\<close>

fun truthy :: "jsval \<Rightarrow> bool" where
  "truthy JUndefined = False"
| "truthy JNull = False"
| "truthy (JBool b) = b"
| "truthy (JNum n) = (n \<noteq> 0)"
| "truthy (JStr s) = (s \<noteq> [])"
| "truthy (JArr xs) = True"
| "truthy (JObj kvs) = True"

text \<open>
  Reading the property \<open>permissions\<close> or \<open>mode\<close> of a value: a \<open>TypeError\<close> on \<open>null\<close> and
  \<open>undefined\<close>, the stored value on an object that has the key, \<open>undefined\<close> everywhere
  else (arrays and primitives have no property of either name).
\<close>

fun get_prop :: "jsval \<Rightarrow> string \<Rightarrow> js_error + jsval" where
  "get_prop JUndefined k = Inl (TypeError k)"
| "get_prop JNull k = Inl (TypeError k)"
| "get_prop (JObj kvs) k = Inr (case map_of kvs k of None \<Rightarrow> JUndefined | Some v \<Rightarrow> v)"
| "get_prop v k = Inr JUndefined"

text \<open>
  The expression \<open>v.permissions && v.mode\<close> in a boolean position: \<open>mode\<close> is read only
  when \<open>permissions\<close> is truthy. Its negation is \<open>!v.permissions || !v.mode\<close>.
\<close>

definition has_permissions_and_mode :: "jsval \<Rightarrow> js_error + bool" where
  "has_permissions_and_mode v =
     (case get_prop v ''permissions'' of
        Inl e \<Rightarrow> Inl e
      | Inr p \<Rightarrow>
          if \<not> truthy p then Inr False
          else (case get_prop v ''mode'' of
                  Inl e \<Rightarrow> Inl e
                | Inr m \<Rightarrow> Inr (truthy m)))"

text \<open>
  \<open>Array.prototype.some\<close> with a callback that may throw: elements are visited from the
  left, the first \<open>true\<close> stops the visit, and an exception of the callback leaves it.
\<close>

fun some_exn :: "('a \<Rightarrow> js_error + bool) \<Rightarrow> 'a list \<Rightarrow> js_error + bool" where
  "some_exn f [] = Inr False"
| "some_exn f (x # xs) =
     (case f x of
        Inl e \<Rightarrow> Inl e
      | Inr b \<Rightarrow> if b then Inr True else some_exn f xs)"

section \<open>Diagnostics\<close>

text \<open>
  One constructor for each call of \<open>devWarn\<close> in the directive, in source order, with the
  values its message interpolates:
  \<^item> \<open>PermissionsNotAvailable\<close>: "Permissions are not available. Make sure to configure
    them using configurePermissionDirective()."
  \<^item> \<open>ValueNullOrUndefined\<close>: "Permission value is null or undefined"
  \<^item> \<open>ArrayInvalidItems\<close>: "Array contains invalid permission items. ..."
  \<^item> \<open>ObjectMissingProperties\<close>: "Object must have both "permissions" and "mode" properties"
  \<^item> \<open>ObjectPermissionsNotArray\<close>: "Object permissions property must be an array"
  \<^item> \<open>InvalidMode m\<close>: "Invalid mode "m". Valid modes: ..."
  \<^item> \<open>ValueWrongType\<close>: "Permission value must be a string, array, or object"
  \<^item> \<open>InvalidRegexPattern p msg\<close>: "Invalid regex pattern: "p". Error: msg"
  \<^item> \<open>PermissionsMustBeArray\<close>: "Permissions must be an array"
  \<^item> \<open>PermissionsMustBeStrings\<close>: "All permissions in array must be strings"
  \<^item> \<open>UnknownMode m\<close>: "Unknown mode: m"
  \<^item> \<open>InvalidArrayItem\<close>: "Invalid array item type. Expected string or object with
    permissions and mode"
  \<^item> \<open>UnsupportedFormat\<close>: "Unsupported permission value format"
  \<^item> \<open>EvaluationError e\<close>: "Error evaluating permissions: e.message"
\<close>

datatype diagnostic =
    PermissionsNotAvailable
  | ValueNullOrUndefined
  | ArrayInvalidItems
  | ObjectMissingProperties
  | ObjectPermissionsNotArray
  | InvalidMode jsval
  | ValueWrongType
  | InvalidRegexPattern string string
  | PermissionsMustBeArray
  | PermissionsMustBeStrings
  | UnknownMode jsval
  | InvalidArrayItem
  | UnsupportedFormat
  | EvaluationError js_error

text \<open>
  \<open>devWarn\<close> writes to the console only when \<open>process.env.NODE_ENV\<close> is
  \<open>"development"\<close>; the flag \<open>dev\<close> is that test. The result is the list of diagnostics
  written by the call.
\<close>

definition devWarn :: "bool \<Rightarrow> diagnostic \<Rightarrow> diagnostic list" where
  "devWarn dev message = (if dev then [message] else [])"

text \<open>
  A computation of the directive: the value it returns or the exception it throws,
  together with the diagnostics it wrote, in order.
\<close>

type_synonym 'a outcome = "(js_error + 'a) \<times> diagnostic list"

section \<open>The validator\<close>

text \<open>
  The callback of \<open>some\<close> in the array branch:
  \<open>typeof item !== "string" && (typeof item !== "object" || !item.permissions || !item.mode)\<close>.
\<close>

definition invalid_item :: "jsval \<Rightarrow> js_error + bool" where
  "invalid_item item =
     (if typeof item = ''string'' then Inr False
      else if typeof item \<noteq> ''object'' then Inr True
      else map_sum id Not (has_permissions_and_mode item))"

definition validModes :: "string list" where
  "validModes = [''and'', ''or'', ''startWith'', ''endWith'', ''exact'', ''regex'']"

definition validatePermissionFormat :: "bool \<Rightarrow> jsval \<Rightarrow> bool outcome" where
  "validatePermissionFormat dev permissionValue =
     (if permissionValue = JNull \<or> permissionValue = JUndefined then
        (Inr False, devWarn dev ValueNullOrUndefined)
      else if typeof permissionValue = ''string'' then (Inr True, [])
      else if isArray permissionValue then
        (case some_exn invalid_item (array_items permissionValue) of
           Inl e \<Rightarrow> (Inl e, [])
         | Inr hasInvalidItems \<Rightarrow>
             if hasInvalidItems then (Inr False, devWarn dev ArrayInvalidItems)
             else (Inr True, []))
      else if typeof permissionValue = ''object'' then
        (case has_permissions_and_mode permissionValue of
           Inl e \<Rightarrow> (Inl e, [])
         | Inr both \<Rightarrow>
             if \<not> both then (Inr False, devWarn dev ObjectMissingProperties)
             else (case get_prop permissionValue ''permissions'' of
                     Inl e \<Rightarrow> (Inl e, [])
                   | Inr ps \<Rightarrow>
                       if \<not> isArray ps then (Inr False, devWarn dev ObjectPermissionsNotArray)
                       else (case get_prop permissionValue ''mode'' of
                               Inl e \<Rightarrow> (Inl e, [])
                             | Inr m \<Rightarrow>
                                 if \<not> (m \<in> set (map JStr validModes)) then
                                   (Inr False, devWarn dev (InvalidMode m))
                                 else (Inr True, []))))
      else (Inr False, devWarn dev ValueWrongType))"

section \<open>The held permissions\<close>

text \<open>
  \<open>PermissionsArray\<close> is \<open>string[] | Ref<string[]>\<close>: a static array, or a reactive cell
  whose current value is read at each check. \<open>RefCell None\<close> is a cell whose current
  value is not an array, the case the \<open>Array.isArray\<close> guards of the checks are for.
\<close>

datatype permissions_source =
    StaticArray "string list"
  | RefCell "string list option"

record GlobalConfig =
  permissions :: "permissions_source option"

definition initialGlobalConfig :: GlobalConfig where
  "initialGlobalConfig = \<lparr>permissions = None\<rparr>"

definition configurePermissionDirective :: "permissions_source \<Rightarrow> GlobalConfig \<Rightarrow> GlobalConfig" where
  "configurePermissionDirective perms globalConfig = globalConfig\<lparr>permissions := Some perms\<rparr>"

text \<open>
  \<open>getCurrentPermissions\<close>: the value of the cell, or the static array itself. The
  result is \<open>None\<close> when it is not an array.
\<close>

fun getCurrentPermissions :: "permissions_source \<Rightarrow> string list option" where
  "getCurrentPermissions (RefCell v) = v"
| "getCurrentPermissions (StaticArray xs) = Some xs"

section \<open>The matching modes\<close>

definition checkPermission :: "permissions_source \<Rightarrow> string \<Rightarrow> bool" where
  "checkPermission src permission =
     (case getCurrentPermissions src of
        None \<Rightarrow> False
      | Some currentPermissions \<Rightarrow> permission \<in> set currentPermissions)"

definition checkStartsWith :: "permissions_source \<Rightarrow> string list \<Rightarrow> bool" where
  "checkStartsWith src permissionsToCheck =
     (case getCurrentPermissions src of
        None \<Rightarrow> False
      | Some currentPermissions \<Rightarrow>
          list_ex (\<lambda>perm. list_ex (\<lambda>userPerm. prefix perm userPerm) currentPermissions)
            permissionsToCheck)"

definition checkEndsWith :: "permissions_source \<Rightarrow> string list \<Rightarrow> bool" where
  "checkEndsWith src permissionsToCheck =
     (case getCurrentPermissions src of
        None \<Rightarrow> False
      | Some currentPermissions \<Rightarrow>
          list_ex (\<lambda>perm. list_ex (\<lambda>userPerm. suffix perm userPerm) currentPermissions)
            permissionsToCheck)"

definition checkExactMatch :: "permissions_source \<Rightarrow> string list \<Rightarrow> bool" where
  "checkExactMatch src permissionsToCheck =
     (case getCurrentPermissions src of
        None \<Rightarrow> False
      | Some currentPermissions \<Rightarrow>
          list_ex (\<lambda>perm. perm \<in> set currentPermissions) permissionsToCheck)"

text \<open>
  \<open>Array.prototype.some\<close> with a callback that writes diagnostics and does not throw:
  the diagnostics of the elements visited, up to and including the first \<open>true\<close>.
\<close>

fun some_log :: "('a \<Rightarrow> bool \<times> diagnostic list) \<Rightarrow> 'a list \<Rightarrow> bool \<times> diagnostic list" where
  "some_log f [] = (False, [])"
| "some_log f (x # xs) =
     (case f x of
        (b, ds) \<Rightarrow>
          if b then (True, ds)
          else (case some_log f xs of (b', ds') \<Rightarrow> (b', ds @ ds')))"

text \<open>
  The regular-expression engine is the host's: \<open>new_RegExp pattern\<close> is the compiled
  expression, or the message of the \<open>SyntaxError\<close> that \<open>new RegExp(pattern)\<close> throws;
  \<open>regex_test regex s\<close> is \<open>regex.test(s)\<close>. The expression has no flags, so \<open>test\<close>
  keeps no position between calls, and on a string it does not throw: the \<open>catch\<close> of
  \<open>checkRegexMatch\<close> is reached from the constructor only.
\<close>

definition checkRegexMatch ::
  "(string \<Rightarrow> string + 'r) \<Rightarrow> ('r \<Rightarrow> string \<Rightarrow> bool) \<Rightarrow> bool \<Rightarrow> permissions_source \<Rightarrow>
   string list \<Rightarrow> bool \<times> diagnostic list" where
  "checkRegexMatch new_RegExp regex_test dev src permissionsToCheck =
     (case getCurrentPermissions src of
        None \<Rightarrow> (False, [])
      | Some currentPermissions \<Rightarrow>
          some_log
            (\<lambda>pattern.
               case new_RegExp pattern of
                 Inr regex \<Rightarrow> (list_ex (\<lambda>userPerm. regex_test regex userPerm) currentPermissions, [])
               | Inl msg \<Rightarrow> (False, devWarn dev (InvalidRegexPattern pattern msg)))
            permissionsToCheck)"

section \<open>The evaluator\<close>

text \<open>
  \<open>Promise.all\<close> over the promises of computations that have all been started: every
  diagnostic is written, and the result is the list of values, or the first rejection.
\<close>

fun all_settled :: "(js_error + 'a) list \<Rightarrow> js_error + 'a list" where
  "all_settled [] = Inr []"
| "all_settled (r # rs) =
     (case r of
        Inl e \<Rightarrow> Inl e
      | Inr v \<Rightarrow> (case all_settled rs of Inl e \<Rightarrow> Inl e | Inr vs \<Rightarrow> Inr (v # vs)))"

definition promise_all :: "'a outcome list \<Rightarrow> ('a list) outcome" where
  "promise_all rs = (all_settled (map fst rs), concat (map snd rs))"

text \<open>
  The first branch of \<open>evaluatePermission\<close>, entered for a non-array object with truthy
  \<open>permissions\<close> and \<open>mode\<close>: the two re-checks of \<open>permissions\<close> and the \<open>switch\<close> on \<open>mode\<close>.
\<close>

definition evaluateGroup ::
  "(string \<Rightarrow> string + 'r) \<Rightarrow> ('r \<Rightarrow> string \<Rightarrow> bool) \<Rightarrow> bool \<Rightarrow> permissions_source \<Rightarrow>
   jsval \<Rightarrow> bool outcome" where
  "evaluateGroup new_RegExp regex_test dev src permissionValue =
     (case get_prop permissionValue ''permissions'' of
        Inl e \<Rightarrow> (Inl e, [])
      | Inr permsToCheck \<Rightarrow>
     (case get_prop permissionValue ''mode'' of
        Inl e \<Rightarrow> (Inl e, [])
      | Inr mode \<Rightarrow>
          if \<not> isArray permsToCheck then (Inr False, devWarn dev PermissionsMustBeArray)
          else if list_ex (\<lambda>perm. typeof perm \<noteq> ''string'') (array_items permsToCheck) then
            (Inr False, devWarn dev PermissionsMustBeStrings)
          else
            (let perms = map string_of (array_items permsToCheck) in
             if mode = JStr ''startWith'' then (Inr (checkStartsWith src perms), [])
             else if mode = JStr ''endWith'' then (Inr (checkEndsWith src perms), [])
             else if mode = JStr ''exact'' then (Inr (checkExactMatch src perms), [])
             else if mode = JStr ''regex'' then
               (case checkRegexMatch new_RegExp regex_test dev src perms of
                  (b, ds) \<Rightarrow> (Inr b, ds))
             else if mode = JStr ''and'' then
               (Inr (list_all id (map (checkPermission src) perms)), [])
             else if mode = JStr ''or'' then
               (Inr (list_ex id (map (checkPermission src) perms)), [])
             else (Inr False, devWarn dev (UnknownMode mode)))))"

function evaluatePermission ::
  "(string \<Rightarrow> string + 'r) \<Rightarrow> ('r \<Rightarrow> string \<Rightarrow> bool) \<Rightarrow> bool \<Rightarrow> permissions_source \<Rightarrow>
   jsval \<Rightarrow> bool outcome" where
  "evaluatePermission new_RegExp regex_test dev src permissionValue =
     (case (if typeof permissionValue = ''object'' \<and> \<not> isArray permissionValue
            then has_permissions_and_mode permissionValue else Inr False) of
        Inl e \<Rightarrow> (Inl e, [])
      | Inr is_group \<Rightarrow>
          if is_group then evaluateGroup new_RegExp regex_test dev src permissionValue
          else if isArray permissionValue then
            (case promise_all
                    (map (\<lambda>item.
                            if typeof item = ''string'' then
                              (Inr (checkPermission src (string_of item)), [])
                            else
                              (case (if typeof item = ''object''
                                     then has_permissions_and_mode item else Inr False) of
                                 Inl e \<Rightarrow> (Inl e, [])
                               | Inr is_object \<Rightarrow>
                                   if is_object then
                                     evaluatePermission new_RegExp regex_test dev src item
                                   else (Inr False, devWarn dev InvalidArrayItem)))
                       (array_items permissionValue)) of
               (Inl e, ds) \<Rightarrow> (Inl e, ds)
             | (Inr results, ds) \<Rightarrow> (Inr (list_ex id results), ds))
          else if typeof permissionValue = ''string'' then
            (Inr (checkPermission src (string_of permissionValue)), [])
          else (Inr False, devWarn dev UnsupportedFormat))"
  by pat_completeness auto
termination
proof (relation "measure (\<lambda>(new_RegExp, regex_test, dev, src, v). size v)")
  show "wf (measure (\<lambda>(new_RegExp :: string \<Rightarrow> string + 'r, regex_test :: 'r \<Rightarrow> string \<Rightarrow> bool,
                       dev :: bool, src :: permissions_source, v :: jsval). size v))"
    by simp
next
  fix new_RegExp :: "string \<Rightarrow> string + 'r" and regex_test :: "'r \<Rightarrow> string \<Rightarrow> bool"
    and dev :: bool and src :: permissions_source and permissionValue item :: jsval
  assume "isArray permissionValue" and "item \<in> set (array_items permissionValue)"
  then have "size item < size permissionValue"
    by (cases permissionValue) (auto simp: less_Suc_eq_le size_list_estimation')
  then show "((new_RegExp, regex_test, dev, src, item),
              (new_RegExp, regex_test, dev, src, permissionValue))
             \<in> measure (\<lambda>(new_RegExp, regex_test, dev, src, v). size v)"
    by simp
qed

declare evaluatePermission.simps [simp del]

section \<open>The directive's \<open>mounted\<close> hook\<close>

text \<open>
  The hook is an asynchronous function: it ends by fulfilling its promise or by rejecting
  it with the exception that escaped (\<open>rejected\<close>). \<open>attached\<close> says whether the element
  has a parent node; \<open>diagnostics\<close> are the warnings written.
\<close>

record mount_result =
  rejected :: "js_error option"
  attached :: bool
  diagnostics :: "diagnostic list"

text \<open>\<open>if (el.parentNode) el.parentNode.removeChild(el)\<close>\<close>

definition removeFromParent :: "bool \<Rightarrow> bool" where
  "removeFromParent att = (if att then False else att)"

definition mounted ::
  "(string \<Rightarrow> string + 'r) \<Rightarrow> ('r \<Rightarrow> string \<Rightarrow> bool) \<Rightarrow> bool \<Rightarrow> GlobalConfig \<Rightarrow>
   jsval \<Rightarrow> bool \<Rightarrow> mount_result" where
  "mounted new_RegExp regex_test dev globalConfig val att =
     (case permissions globalConfig of
        None \<Rightarrow>
          \<lparr>rejected = None, attached = att,
           diagnostics = devWarn dev PermissionsNotAvailable\<rparr>
      | Some src \<Rightarrow>
          if val = JStr ''*'' then \<lparr>rejected = None, attached = att, diagnostics = []\<rparr>
          else
            (case validatePermissionFormat dev val of
               (Inl e, ds) \<Rightarrow> \<lparr>rejected = Some e, attached = att, diagnostics = ds\<rparr>
             | (Inr valid, ds) \<Rightarrow>
                 if \<not> valid then
                   \<lparr>rejected = None, attached = removeFromParent att, diagnostics = ds\<rparr>
                 else
                   (case evaluatePermission new_RegExp regex_test dev src val of
                      (Inr hasPermission, ds') \<Rightarrow>
                        \<lparr>rejected = None,
                         attached = (if \<not> hasPermission then removeFromParent att else att),
                         diagnostics = ds @ ds'\<rparr>
                    | (Inl error, ds') \<Rightarrow>
                        \<lparr>rejected = None, attached = removeFromParent att,
                         diagnostics = ds @ ds' @ devWarn dev (EvaluationError error)\<rparr>)))"

section \<open>Requirement expressions\<close>

text \<open>
  The group requirement \<open>Group(perms, mode)\<close> is the object
  \<open>{ permissions: perms, mode: mode }\<close> with an array of strings and a string.
\<close>

definition Group :: "string list \<Rightarrow> string \<Rightarrow> jsval" where
  "Group perms mode = JObj [(''permissions'', JArr (map JStr perms)), (''mode'', JStr mode)]"

section \<open>Evaluation of a group\<close>

lemma typeof_Group [simp]: "typeof (Group perms m) = ''object''" "\<not> isArray (Group perms m)"
  by (simp_all add: Group_def)

lemma get_prop_Group [simp]:
  "get_prop (Group perms m) ''permissions'' = Inr (JArr (map JStr perms))"
  "get_prop (Group perms m) ''mode'' = Inr (JStr m)"
  by (simp_all add: Group_def)

lemma has_permissions_and_mode_Group [simp]:
  "has_permissions_and_mode (Group perms m) = Inr (m \<noteq> [])"
  by (simp add: has_permissions_and_mode_def)

lemma no_non_string_in_strings [simp]:
  "\<not> list_ex (\<lambda>perm. typeof perm \<noteq> ''string'') (map JStr perms)"
  by (induction perms) simp_all

lemma string_of_strings [simp]:
  "map string_of (map JStr perms) = perms" "map (string_of \<circ> JStr) perms = perms"
  by (induction perms) simp_all

lemma evaluatePermission_Group:
  "m \<noteq> [] \<Longrightarrow>
   evaluatePermission new_RegExp regex_test dev src (Group perms m) =
   evaluateGroup new_RegExp regex_test dev src (Group perms m)"
  by (subst evaluatePermission.simps) simp

lemma evaluateGroup_Group:
  "evaluateGroup new_RegExp regex_test dev src (Group perms m) =
     (if m = ''startWith'' then (Inr (checkStartsWith src perms), [])
      else if m = ''endWith'' then (Inr (checkEndsWith src perms), [])
      else if m = ''exact'' then (Inr (checkExactMatch src perms), [])
      else if m = ''regex'' then
        (Inr (fst (checkRegexMatch new_RegExp regex_test dev src perms)),
         snd (checkRegexMatch new_RegExp regex_test dev src perms))
      else if m = ''and'' then (Inr (list_all (checkPermission src) perms), [])
      else if m = ''or'' then (Inr (list_ex (checkPermission src) perms), [])
      else (Inr False, devWarn dev (UnknownMode (JStr m))))"
  by (simp add: evaluateGroup_def list_all_iff list_ex_iff split: prod.splits)

text \<open>
  Claim C4. For every list of permission strings \<open>perms\<close> and every held array \<open>held\<close>
  (static, or the current value of a reactive cell), evaluating \<open>Group(perms, and)\<close>
  returns true iff every string of \<open>perms\<close> is a member of \<open>held\<close>, and writes no
  diagnostic.
\<close>

theorem and_group_iff_all_held:
  assumes "getCurrentPermissions src = Some held"
  shows "evaluatePermission new_RegExp regex_test dev src (Group perms ''and'') =
         (Inr (set perms \<subseteq> set held), [])"
  using assms
  by (auto simp: evaluatePermission_Group evaluateGroup_Group checkPermission_def list_all_iff)

theorem and_group_iff_all_held_witness:
  "getCurrentPermissions (RefCell (Some [''a'', ''b'', ''c''])) = Some [''a'', ''b'', ''c''] \<and>
   evaluatePermission Inr sublist True (RefCell (Some [''a'', ''b'', ''c'']))
     (Group [''a'', ''b''] ''and'') = (Inr True, []) \<and>
   getCurrentPermissions (StaticArray [''a'']) = Some [''a''] \<and>
   evaluatePermission Inr sublist True (StaticArray [''a'']) (Group [''a'', ''b''] ''and'') =
     (Inr False, [])"
  using and_group_iff_all_held [where src = "RefCell (Some [''a'', ''b'', ''c''])"
          and held = "[''a'', ''b'', ''c'']" and perms = "[''a'', ''b'']"
          and new_RegExp = Inr and regex_test = sublist and dev = True]
        and_group_iff_all_held [where src = "StaticArray [''a'']"
          and held = "[''a'']" and perms = "[''a'', ''b'']"
          and new_RegExp = Inr and regex_test = sublist and dev = True]
  by simp

text \<open>
  Claim C5. For every list \<open>perms\<close> and every source of held permissions, evaluating
  \<open>Group(perms, or)\<close> and evaluating \<open>Group(perms, exact)\<close> give the same result; when
  the held permissions are the array \<open>held\<close>, that result is true iff at least one string
  of \<open>perms\<close> is a member of \<open>held\<close>.
\<close>

theorem or_exact_same:
  "evaluatePermission new_RegExp regex_test dev src (Group perms ''or'') =
   evaluatePermission new_RegExp regex_test dev src (Group perms ''exact'') \<and>
   (getCurrentPermissions src = Some held \<longrightarrow>
    evaluatePermission new_RegExp regex_test dev src (Group perms ''or'') =
      (Inr (set perms \<inter> set held \<noteq> {}), []))"
  by (auto simp: evaluatePermission_Group evaluateGroup_Group checkPermission_def
        checkExactMatch_def list_ex_iff split: option.splits)

theorem or_exact_same_witness:
  "evaluatePermission Inr sublist True (StaticArray [''b'', ''c'']) (Group [''a'', ''b''] ''or'') =
     (Inr True, []) \<and>
   evaluatePermission Inr sublist True (StaticArray [''b'', ''c'']) (Group [''a'', ''b''] ''exact'') =
     (Inr True, [])"
  using or_exact_same [where src = "StaticArray [''b'', ''c'']" and held = "[''b'', ''c'']"
          and perms = "[''a'', ''b'']" and new_RegExp = Inr and regex_test = sublist
          and dev = True]
  by auto

text \<open>
  Claim C6. For every list of prefixes \<open>perms\<close> and every held array \<open>held\<close>, evaluating
  \<open>Group(perms, startWith)\<close> returns true iff some held permission starts with some
  string of \<open>perms\<close>.
\<close>

theorem startWith_group_iff_prefix:
  assumes "getCurrentPermissions src = Some held"
  shows "evaluatePermission new_RegExp regex_test dev src (Group perms ''startWith'') =
         (Inr (\<exists>userPerm \<in> set held. \<exists>perm \<in> set perms. prefix perm userPerm), [])"
  using assms
  by (auto simp: evaluatePermission_Group evaluateGroup_Group checkStartsWith_def list_ex_iff)

theorem startWith_group_iff_prefix_witness:
  "getCurrentPermissions (StaticArray [''admin.users'']) = Some [''admin.users''] \<and>
   evaluatePermission Inr sublist True (StaticArray [''admin.users''])
     (Group [''adm''] ''startWith'') = (Inr True, [])"
  using startWith_group_iff_prefix [where src = "StaticArray [''admin.users'']"
          and held = "[''admin.users'']" and perms = "[''adm'']"
          and new_RegExp = Inr and regex_test = sublist and dev = True]
  by simp

text \<open>
  Claim C10. For every source of held permissions, a group whose \<open>permissions\<close> array is
  empty evaluates to true under mode \<open>and\<close> and to false under each of the modes \<open>or\<close>,
  \<open>exact\<close>, \<open>startWith\<close>, \<open>endWith\<close> and \<open>regex\<close>.
\<close>

theorem empty_group:
  "evaluatePermission new_RegExp regex_test dev src (Group [] ''and'') = (Inr True, []) \<and>
   evaluatePermission new_RegExp regex_test dev src (Group [] ''or'') = (Inr False, []) \<and>
   evaluatePermission new_RegExp regex_test dev src (Group [] ''exact'') = (Inr False, []) \<and>
   evaluatePermission new_RegExp regex_test dev src (Group [] ''startWith'') = (Inr False, []) \<and>
   evaluatePermission new_RegExp regex_test dev src (Group [] ''endWith'') = (Inr False, []) \<and>
   evaluatePermission new_RegExp regex_test dev src (Group [] ''regex'') = (Inr False, [])"
  by (simp add: evaluatePermission_Group evaluateGroup_Group checkExactMatch_def
        checkStartsWith_def checkEndsWith_def checkRegexMatch_def split: option.splits)

theorem empty_group_witness:
  "evaluatePermission Inr sublist True (StaticArray [''read'']) (Group [] ''and'') =
     (Inr True, []) \<and>
   evaluatePermission Inr sublist True (StaticArray [''read'']) (Group [] ''regex'') =
     (Inr False, [])"
  using empty_group [where src = "StaticArray [''read'']"
          and new_RegExp = Inr and regex_test = sublist and dev = True]
  by simp

section \<open>Regular-expression groups\<close>

lemma checkRegexMatch_eq:
  assumes "getCurrentPermissions src = Some held"
  shows "checkRegexMatch new_RegExp regex_test dev src patterns =
     (\<exists>pattern \<in> set patterns. \<exists>regex. new_RegExp pattern = Inr regex \<and>
          (\<exists>userPerm \<in> set held. regex_test regex userPerm),
      concat (map (\<lambda>pattern. case new_RegExp pattern of
                                Inl msg \<Rightarrow> devWarn dev (InvalidRegexPattern pattern msg)
                              | Inr regex \<Rightarrow> [])
        (takeWhile (\<lambda>pattern. \<not> (\<exists>regex. new_RegExp pattern = Inr regex \<and>
            (\<exists>userPerm \<in> set held. regex_test regex userPerm))) patterns)))"
proof (induction patterns)
  case Nil
  show ?case using assms by (simp add: checkRegexMatch_def)
next
  case (Cons p ps)
  show ?case
  proof (cases "new_RegExp p")
    case (Inl msg)
    with Cons assms show ?thesis
      by (simp add: checkRegexMatch_def split: prod.splits)
  next
    case (Inr regex)
    with Cons assms show ?thesis
      by (auto simp: checkRegexMatch_def list_ex_iff split: prod.splits)
  qed
qed

text \<open>
  Claim C7. For every list of pattern strings and every held array, evaluating
  \<open>Group(patterns, regex)\<close> returns (it does not throw) true iff some pattern compiles and
  the compiled expression matches some held permission (\<open>regex.test\<close>, the host's
  unanchored search). The patterns are visited from the left up to the first one that
  matches; each visited pattern that fails to compile writes the invalid-pattern
  diagnostic, counts as false, and the visit goes on with the patterns after it.
\<close>

theorem regex_group:
  assumes "getCurrentPermissions src = Some held"
  shows "evaluatePermission new_RegExp regex_test dev src (Group patterns ''regex'') =
     (Inr (\<exists>pattern \<in> set patterns. \<exists>regex. new_RegExp pattern = Inr regex \<and>
          (\<exists>userPerm \<in> set held. regex_test regex userPerm)),
      concat (map (\<lambda>pattern. case new_RegExp pattern of
                                Inl msg \<Rightarrow> devWarn dev (InvalidRegexPattern pattern msg)
                              | Inr regex \<Rightarrow> [])
        (takeWhile (\<lambda>pattern. \<not> (\<exists>regex. new_RegExp pattern = Inr regex \<and>
            (\<exists>userPerm \<in> set held. regex_test regex userPerm))) patterns)))"
  by (simp add: evaluatePermission_Group evaluateGroup_Group checkRegexMatch_eq [OF assms])

theorem regex_group_witness:
  "getCurrentPermissions (StaticArray [''xabcz'']) = Some [''xabcz''] \<and>
   evaluatePermission (\<lambda>p. if p = ''('' then Inl ''Unterminated group'' else Inr p) sublist True
     (StaticArray [''xabcz'']) (Group [''('', ''abc'', ''(''] ''regex'') =
     (Inr True, [InvalidRegexPattern ''('' ''Unterminated group''])"
  using regex_group [where src = "StaticArray [''xabcz'']" and held = "[''xabcz'']"
          and patterns = "[''('', ''abc'', ''('']"
          and new_RegExp = "\<lambda>p. if p = ''('' then Inl ''Unterminated group'' else Inr p"
          and regex_test = sublist and dev = True]
  by (simp add: devWarn_def sublist_Cons_right)

section \<open>The validator's verdicts\<close>




section \<open>Where the validator and the evaluator return\<close>

text \<open>
  The validator returns on every value that is not an array with a \<open>null\<close> element, and
  after it has returned true the evaluator returns too. On a list without \<open>null\<close> the
  evaluator is the disjunction of its items: a string counts when it is held, an object
  with truthy \<open>permissions\<close> and \<open>mode\<close> counts as its group does, and every other item
  counts as false and writes the invalid-item diagnostic.
\<close>

lemma evaluatePermission_string:
  "evaluatePermission new_RegExp regex_test dev src (JStr s) = (Inr (checkPermission src s), [])"
  by (subst evaluatePermission.simps) simp

lemma returns_iff: "(\<exists>b. r = Inr b) \<longleftrightarrow> \<not> isl r"
  by (cases r) simp_all

lemma has_permissions_and_mode_object [simp]: "\<not> isl (has_permissions_and_mode (JObj kvs))"
  by (simp add: has_permissions_and_mode_def)

lemma has_permissions_and_mode_array [simp]:
  "has_permissions_and_mode (JArr xs) = Inr False"
  by (simp add: has_permissions_and_mode_def)

lemma invalid_item_returns: "item \<noteq> JNull \<Longrightarrow> \<not> isl (invalid_item item)"
  by (cases item) (simp_all add: invalid_item_def isl_map_sum)

lemma some_exn_returns:
  "\<forall>x \<in> set xs. \<not> isl (f x) \<Longrightarrow> \<not> isl (some_exn f xs)"
  by (induction xs) (auto split: sum.splits)

lemma validator_returns_without_null_items:
  assumes "JNull \<notin> set (array_items v)"
  shows "\<exists>b. fst (validatePermissionFormat dev v) = Inr b"
proof -
  have "\<not> isl (fst (validatePermissionFormat dev v))"
  proof (cases v)
    case (JArr items)
    with assms have "\<forall>item \<in> set items. \<not> isl (invalid_item item)"
      using invalid_item_returns by (metis array_items.simps(1))
    then have "\<not> isl (some_exn invalid_item items)"
      by (rule some_exn_returns)
    with JArr show ?thesis
      by (auto simp: validatePermissionFormat_def split: sum.splits)
  next
    case (JObj kvs)
    then show ?thesis
      by (simp add: validatePermissionFormat_def has_permissions_and_mode_def)
  qed (simp_all add: validatePermissionFormat_def)
  then show ?thesis using returns_iff by blast
qed

lemma evaluateGroup_object_returns:
  "\<not> isl (fst (evaluateGroup new_RegExp regex_test dev src (JObj kvs)))"
  by (simp add: evaluateGroup_def Let_def split: prod.splits)

lemma evaluatePermission_object:
  assumes "typeof v = ''object''" and "has_permissions_and_mode v = Inr True"
  shows "evaluatePermission new_RegExp regex_test dev src v =
         evaluateGroup new_RegExp regex_test dev src v"
proof -
  from assms have "\<not> isArray v" by (cases v) auto
  with assms show ?thesis by (subst evaluatePermission.simps) simp
qed

lemma evaluatePermission_list:
  "evaluatePermission new_RegExp regex_test dev src (JArr items) =
     (case promise_all
             (map (\<lambda>item.
                     if typeof item = ''string'' then
                       (Inr (checkPermission src (string_of item)), [])
                     else
                       (case (if typeof item = ''object''
                              then has_permissions_and_mode item else Inr False) of
                          Inl e \<Rightarrow> (Inl e, [])
                        | Inr is_object \<Rightarrow>
                            if is_object then evaluateGroup new_RegExp regex_test dev src item
                            else (Inr False, devWarn dev InvalidArrayItem)))
                items) of
        (Inl e, ds) \<Rightarrow> (Inl e, ds)
      | (Inr results, ds) \<Rightarrow> (Inr (list_ex id results), ds))"
proof -
  have "map (\<lambda>item.
               if typeof item = ''string'' then
                 (Inr (checkPermission src (string_of item)), [])
               else
                 (case (if typeof item = ''object''
                        then has_permissions_and_mode item else Inr False) of
                    Inl e \<Rightarrow> (Inl e, [])
                  | Inr is_object \<Rightarrow>
                      if is_object then evaluatePermission new_RegExp regex_test dev src item
                      else (Inr False, devWarn dev InvalidArrayItem))) items =
        map (\<lambda>item.
               if typeof item = ''string'' then
                 (Inr (checkPermission src (string_of item)), [])
               else
                 (case (if typeof item = ''object''
                        then has_permissions_and_mode item else Inr False) of
                    Inl e \<Rightarrow> (Inl e, [])
                  | Inr is_object \<Rightarrow>
                      if is_object then evaluateGroup new_RegExp regex_test dev src item
                      else (Inr False, devWarn dev InvalidArrayItem))) items"
    by (rule map_cong) (auto simp: evaluatePermission_object split: sum.splits)
  then show ?thesis
    by (subst evaluatePermission.simps) (simp del: map_eq_conv)
qed

lemma list_example:
  assumes "getCurrentPermissions src = Some held"
  shows "evaluatePermission new_RegExp regex_test dev src
           (JArr [JStr ''x'', Group [''y'', ''z''] ''and'']) =
         (Inr (''x'' \<in> set held \<or> (''y'' \<in> set held \<and> ''z'' \<in> set held)), [])"
  using assms
  by (simp add: evaluatePermission_list promise_all_def evaluateGroup_Group checkPermission_def)

lemma bool_result: "\<not> isl (r :: js_error + bool) \<Longrightarrow> r = Inr (r = Inr True)"
  by (cases r) auto

lemma evaluateGroup_object_value:
  "fst (evaluateGroup new_RegExp regex_test dev src (JObj kvs)) =
   Inr (fst (evaluateGroup new_RegExp regex_test dev src (JObj kvs)) = Inr True)"
  using evaluateGroup_object_returns by (rule bool_result)

lemma list_item_value:
  assumes "item \<noteq> JNull"
  shows "fst (if typeof item = ''string'' then
                (Inr (checkPermission src (string_of item)), [])
              else
                (case (if typeof item = ''object''
                       then has_permissions_and_mode item else Inr False) of
                   Inl e \<Rightarrow> (Inl e, [])
                 | Inr is_object \<Rightarrow>
                     if is_object then evaluateGroup new_RegExp regex_test dev src item
                     else (Inr False, devWarn dev InvalidArrayItem))) =
         Inr ((typeof item = ''string'' \<and> checkPermission src (string_of item)) \<or>
              (typeof item = ''object'' \<and> has_permissions_and_mode item = Inr True \<and>
               fst (evaluateGroup new_RegExp regex_test dev src item) = Inr True))"
proof (cases item)
  case (JObj kvs)
  show ?thesis
  proof (cases "has_permissions_and_mode (JObj kvs)")
    case (Inl e)
    then show ?thesis
      using has_permissions_and_mode_object [of kvs] by simp
  next
    case (Inr ok)
    show ?thesis
    proof (cases ok)
      case True
      with Inr have "has_permissions_and_mode (JObj kvs) = Inr True" by simp
      then show ?thesis
        unfolding JObj
        using evaluateGroup_object_value [of new_RegExp regex_test dev src kvs]
        by simp
    next
      case False
      with Inr have "has_permissions_and_mode (JObj kvs) = Inr False" by simp
      then show ?thesis unfolding JObj by simp
    qed
  qed
qed (use assms in simp_all)

lemma all_settled_values:
  "\<forall>x \<in> set xs. f x = Inr (P x) \<Longrightarrow> all_settled (map f xs) = Inr (map P xs)"
  by (induction xs) simp_all

lemma list_or_composition:
  assumes "JNull \<notin> set items"
  shows "fst (evaluatePermission new_RegExp regex_test dev src (JArr items)) =
     Inr (\<exists>item \<in> set items.
            (typeof item = ''string'' \<and> checkPermission src (string_of item)) \<or>
            (typeof item = ''object'' \<and> has_permissions_and_mode item = Inr True \<and>
             fst (evaluateGroup new_RegExp regex_test dev src item) = Inr True))"
proof -
  let ?g = "\<lambda>item.
              if typeof item = ''string'' then
                (Inr (checkPermission src (string_of item)), [])
              else
                (case (if typeof item = ''object''
                       then has_permissions_and_mode item else Inr False) of
                   Inl e \<Rightarrow> (Inl e, [])
                 | Inr is_object \<Rightarrow>
                     if is_object then evaluateGroup new_RegExp regex_test dev src item
                     else (Inr False, devWarn dev InvalidArrayItem))"
  let ?P = "\<lambda>item.
              (typeof item = ''string'' \<and> checkPermission src (string_of item)) \<or>
              (typeof item = ''object'' \<and> has_permissions_and_mode item = Inr True \<and>
               fst (evaluateGroup new_RegExp regex_test dev src item) = Inr True)"
  have "\<forall>item \<in> set items. fst (?g item) = Inr (?P item)"
  proof
    fix item assume "item \<in> set items"
    with assms have "item \<noteq> JNull" by auto
    then show "fst (?g item) = Inr (?P item)" by (rule list_item_value)
  qed
  then have "all_settled (map (\<lambda>item. fst (?g item)) items) = Inr (map ?P items)"
    by (rule all_settled_values)
  then have "fst (promise_all (map ?g items)) = Inr (map ?P items)"
    by (simp only: promise_all_def fst_conv map_map comp_def)
  moreover define r where "r = promise_all (map ?g items)"
  ultimately have "fst r = Inr (map ?P items)" by (simp only:)
  then have "fst (case r of (Inl e, ds) \<Rightarrow> (Inl e, ds)
                   | (Inr results, ds) \<Rightarrow> (Inr (list_ex id results), ds)) =
             Inr (list_ex id (map ?P items))"
    by (cases r) simp
  then have "fst (evaluatePermission new_RegExp regex_test dev src (JArr items)) =
             Inr (list_ex id (map ?P items))"
    by (simp only: evaluatePermission_list r_def)
  also have "list_ex id (map ?P items) \<longleftrightarrow> (\<exists>item \<in> set items. ?P item)"
    by (simp only: list_ex_iff set_map bex_simps id_apply)
  finally show ?thesis .
qed

lemma some_exn_False:
  "some_exn f xs = Inr False \<Longrightarrow> \<forall>x \<in> set xs. f x = Inr False"
  by (induction xs) (auto split: sum.splits if_splits)

lemma invalid_item_null: "invalid_item JNull = Inl (TypeError ''permissions'')"
  by (simp add: invalid_item_def has_permissions_and_mode_def)

lemma validated_list_has_no_null:
  assumes "fst (validatePermissionFormat dev (JArr items)) = Inr True"
  shows "JNull \<notin> set items"
proof
  assume "JNull \<in> set items"
  moreover from assms have "some_exn invalid_item items = Inr False"
    by (simp add: validatePermissionFormat_def split: sum.splits if_splits)
  ultimately have "invalid_item JNull = Inr False"
    using some_exn_False by blast
  then show False by (simp add: invalid_item_null)
qed

lemma evaluation_returns_after_validation:
  assumes "fst (validatePermissionFormat dev v) = Inr True"
  shows "\<exists>b. fst (evaluatePermission new_RegExp regex_test dev' src v) = Inr b"
proof (cases v)
  case (JStr s)
  then show ?thesis by (simp add: evaluatePermission_string)
next
  case (JArr items)
  with assms have "JNull \<notin> set items"
    using validated_list_has_no_null by blast
  then show ?thesis
    unfolding JArr
    using list_or_composition [of items new_RegExp regex_test dev' src] by blast
next
  case (JObj kvs)
  with assms have "has_permissions_and_mode (JObj kvs) = Inr True"
    by (simp add: validatePermissionFormat_def split: sum.splits if_splits)
  then have "evaluatePermission new_RegExp regex_test dev' src (JObj kvs) =
             evaluateGroup new_RegExp regex_test dev' src (JObj kvs)"
    by (simp add: evaluatePermission_object)
  then show ?thesis
    unfolding JObj
    using evaluateGroup_object_returns [of new_RegExp regex_test dev' src kvs] returns_iff
    by metis
qed (use assms in \<open>simp_all add: validatePermissionFormat_def\<close>)

lemma list_diagnostics:
  "snd (evaluatePermission new_RegExp regex_test dev src (JArr items)) =
     concat (map (\<lambda>item.
                snd (if typeof item = ''string'' then
                       (Inr (checkPermission src (string_of item)), [])
                     else
                       (case (if typeof item = ''object''
                              then has_permissions_and_mode item else Inr False) of
                          Inl e \<Rightarrow> (Inl e, [])
                        | Inr is_object \<Rightarrow>
                            if is_object then evaluateGroup new_RegExp regex_test dev src item
                            else (Inr False, devWarn dev InvalidArrayItem))))
             items)"
proof -
  have "snd (case (r, ds) of (Inl e, ds) \<Rightarrow> (Inl e, ds)
              | (Inr results, ds) \<Rightarrow> (Inr (list_ex id results), ds)) = ds"
    for r :: "js_error + bool list" and ds :: "diagnostic list"
    by (cases r) simp_all
  then show ?thesis
    by (simp only: evaluatePermission_list promise_all_def map_map comp_def)
qed

lemma list_invalid_item_diagnostic:
  assumes "item \<in> set items" and "typeof item \<noteq> ''string''"
    and "typeof item \<noteq> ''object'' \<or> has_permissions_and_mode item = Inr False"
  shows "set (devWarn dev InvalidArrayItem) \<subseteq>
         set (snd (evaluatePermission new_RegExp regex_test dev src (JArr items)))"
proof -
  from assms(2,3)
  have "snd (if typeof item = ''string'' then
               (Inr (checkPermission src (string_of item)), [])
             else
               (case (if typeof item = ''object''
                      then has_permissions_and_mode item else Inr False) of
                  Inl e \<Rightarrow> (Inl e, [])
                | Inr is_object \<Rightarrow>
                    if is_object then evaluateGroup new_RegExp regex_test dev src item
                    else (Inr False, devWarn dev InvalidArrayItem))) =
        devWarn dev InvalidArrayItem"
    by auto
  with assms(1) show ?thesis
    unfolding list_diagnostics by (intro subsetI) (simp, force)
qed

section \<open>The hook\<close>

lemma mounted_unconfigured:
  "mounted new_RegExp regex_test dev \<lparr>permissions = None\<rparr> val att =
     \<lparr>rejected = None, attached = att, diagnostics = devWarn dev PermissionsNotAvailable\<rparr>"
  by (simp add: mounted_def)

lemma mounted_string:
  "s \<noteq> ''*'' \<Longrightarrow>
   mounted new_RegExp regex_test dev \<lparr>permissions = Some src\<rparr> (JStr s) att =
     \<lparr>rejected = None, attached = (att \<and> checkPermission src s), diagnostics = []\<rparr>"
  by (auto simp: mounted_def validatePermissionFormat_def evaluatePermission_string
        removeFromParent_def)

text \<open>
  Claim C1. With no source of held permissions configured, the hook writes the
  "permissions are not available" diagnostic and returns at once: the element bound to
  \<open>"admin"\<close> keeps its parent. With the empty array configured, the same element is
  removed, as for every denied requirement.
\<close>

theorem unconfigured_left_attached:
  "mounted Inr sublist True initialGlobalConfig (JStr ''admin'') True =
     \<lparr>rejected = None, attached = True, diagnostics = [PermissionsNotAvailable]\<rparr> \<and>
   mounted Inr sublist True (configurePermissionDirective (StaticArray []) initialGlobalConfig)
     (JStr ''admin'') True =
     \<lparr>rejected = None, attached = False, diagnostics = []\<rparr>"
  by (simp add: initialGlobalConfig_def configurePermissionDirective_def mounted_unconfigured
        mounted_string devWarn_def checkPermission_def)

text \<open>
  Claim C2. On the array \<open>["a", null]\<close> the validator throws a \<open>TypeError\<close> (reading
  \<open>permissions\<close> of \<open>null\<close>) instead of returning; the call is outside the hook's
  \<open>try\<close>, so the hook's promise is rejected, no diagnostic is written and the element
  keeps its parent although no permission is held.
\<close>

theorem validator_throws_on_null_item:
  "validatePermissionFormat True (JArr [JStr ''a'', JNull]) =
     (Inl (TypeError ''permissions''), []) \<and>
   mounted Inr sublist True (configurePermissionDirective (StaticArray []) initialGlobalConfig)
     (JArr [JStr ''a'', JNull]) True =
     \<lparr>rejected = Some (TypeError ''permissions''), attached = True, diagnostics = []\<rparr>"
  by (simp add: initialGlobalConfig_def configurePermissionDirective_def mounted_def
        validatePermissionFormat_def invalid_item_def has_permissions_and_mode_def)

text \<open>
  Claim C3, as stated, fails: the test for \<open>"*"\<close> does not come before the test that a
  source is configured. In the unconfigured state the hook, given \<open>"*"\<close>, writes the
  "permissions are not available" diagnostic, which a return at the wildcard test would
  not write.
\<close>

theorem wildcard_after_configuration_check:
  "mounted Inr sublist True initialGlobalConfig (JStr ''*'') True =
     \<lparr>rejected = None, attached = True, diagnostics = [PermissionsNotAvailable]\<rparr> \<and>
   mounted Inr sublist True initialGlobalConfig (JStr ''*'') True \<noteq>
     \<lparr>rejected = None, attached = True, diagnostics = []\<rparr>"
  by (simp add: initialGlobalConfig_def mounted_unconfigured devWarn_def)

text \<open>
  Claim C3, amended. For every configured source of held permissions (the empty array
  included) the hook, given \<open>"*"\<close>, returns before validation and evaluation: it leaves
  the element as it is and writes no diagnostic. In the unconfigured state the test that
  a source is configured comes first: the hook writes its diagnostic and returns, and the
  element is left as it is there too.
\<close>

theorem wildcard_left_attached:
  "mounted new_RegExp regex_test dev \<lparr>permissions = Some src\<rparr> (JStr ''*'') att =
     \<lparr>rejected = None, attached = att, diagnostics = []\<rparr> \<and>
   mounted new_RegExp regex_test dev \<lparr>permissions = None\<rparr> (JStr ''*'') att =
     \<lparr>rejected = None, attached = att, diagnostics = devWarn dev PermissionsNotAvailable\<rparr>"
  by (simp add: mounted_def)

theorem wildcard_left_attached_witness:
  "mounted Inr sublist True (configurePermissionDirective (StaticArray []) initialGlobalConfig)
     (JStr ''*'') True =
     \<lparr>rejected = None, attached = True, diagnostics = []\<rparr> \<and>
   attached (mounted Inr sublist True initialGlobalConfig (JStr ''*'') True)"
  using wildcard_left_attached [where new_RegExp = Inr and regex_test = sublist and dev = True
          and src = "StaticArray []" and att = True]
  by (simp add: initialGlobalConfig_def configurePermissionDirective_def)

section \<open>Lists\<close>

lemma list_or_recursive:
  assumes "JNull \<notin> set items"
  shows "fst (evaluatePermission new_RegExp regex_test dev src (JArr items)) =
     Inr (\<exists>item \<in> set items.
            (typeof item = ''string'' \<and> checkPermission src (string_of item)) \<or>
            (typeof item = ''object'' \<and> has_permissions_and_mode item = Inr True \<and>
             fst (evaluatePermission new_RegExp regex_test dev src item) = Inr True))"
proof -
  have "(typeof item = ''object'' \<and> has_permissions_and_mode item = Inr True \<and>
         fst (evaluatePermission new_RegExp regex_test dev src item) = Inr True) \<longleftrightarrow>
        (typeof item = ''object'' \<and> has_permissions_and_mode item = Inr True \<and>
         fst (evaluateGroup new_RegExp regex_test dev src item) = Inr True)" for item
    using evaluatePermission_object [of item new_RegExp regex_test dev src] by auto
  then show ?thesis
    by (simp only: list_or_composition [OF assms])
qed

text \<open>
  Claim C8. The evaluator is called on a list only after the validator has accepted it.
  On every such list, and on every list without a \<open>null\<close> item, evaluation is the
  disjunction of the items: a string item counts iff it is a member of the held
  permissions, an object item with truthy \<open>permissions\<close> and \<open>mode\<close> counts as its own
  (recursive) evaluation does, and an item of any other shape counts as false and writes
  the invalid-item diagnostic. In particular \<open>[x, {permissions: [y, z], mode: "and"}]\<close>
  evaluates to \<open>held.includes(x) || (held.includes(y) && held.includes(z))\<close>.
\<close>

theorem list_or_of_items:
  "(fst (validatePermissionFormat dev (JArr items)) = Inr True \<longrightarrow>
      fst (evaluatePermission new_RegExp regex_test dev src (JArr items)) =
        Inr (\<exists>item \<in> set items.
               (typeof item = ''string'' \<and> checkPermission src (string_of item)) \<or>
               (typeof item = ''object'' \<and> has_permissions_and_mode item = Inr True \<and>
                fst (evaluatePermission new_RegExp regex_test dev src item) = Inr True))) \<and>
   (JNull \<notin> set items \<longrightarrow>
      fst (evaluatePermission new_RegExp regex_test dev src (JArr items)) =
        Inr (\<exists>item \<in> set items.
               (typeof item = ''string'' \<and> checkPermission src (string_of item)) \<or>
               (typeof item = ''object'' \<and> has_permissions_and_mode item = Inr True \<and>
                fst (evaluatePermission new_RegExp regex_test dev src item) = Inr True)) \<and>
      (\<forall>item \<in> set items.
         typeof item \<noteq> ''string'' \<and>
         (typeof item \<noteq> ''object'' \<or> has_permissions_and_mode item = Inr False) \<longrightarrow>
         set (devWarn dev InvalidArrayItem) \<subseteq>
         set (snd (evaluatePermission new_RegExp regex_test dev src (JArr items))))) \<and>
   (getCurrentPermissions src = Some held \<longrightarrow>
      evaluatePermission new_RegExp regex_test dev src (JArr [JStr x, Group [y, z] ''and'']) =
        (Inr (x \<in> set held \<or> (y \<in> set held \<and> z \<in> set held)), []))"
proof (intro conjI impI ballI)
  assume "fst (validatePermissionFormat dev (JArr items)) = Inr True"
  then have "JNull \<notin> set items" by (rule validated_list_has_no_null)
  then show "fst (evaluatePermission new_RegExp regex_test dev src (JArr items)) =
        Inr (\<exists>item \<in> set items.
               (typeof item = ''string'' \<and> checkPermission src (string_of item)) \<or>
               (typeof item = ''object'' \<and> has_permissions_and_mode item = Inr True \<and>
                fst (evaluatePermission new_RegExp regex_test dev src item) = Inr True))"
    by (rule list_or_recursive)
next
  assume "JNull \<notin> set items"
  then show "fst (evaluatePermission new_RegExp regex_test dev src (JArr items)) =
        Inr (\<exists>item \<in> set items.
               (typeof item = ''string'' \<and> checkPermission src (string_of item)) \<or>
               (typeof item = ''object'' \<and> has_permissions_and_mode item = Inr True \<and>
                fst (evaluatePermission new_RegExp regex_test dev src item) = Inr True))"
    by (rule list_or_recursive)
next
  fix item
  assume "item \<in> set items"
    and "typeof item \<noteq> ''string'' \<and>
         (typeof item \<noteq> ''object'' \<or> has_permissions_and_mode item = Inr False)"
  then show "set (devWarn dev InvalidArrayItem) \<subseteq>
         set (snd (evaluatePermission new_RegExp regex_test dev src (JArr items)))"
    using list_invalid_item_diagnostic [of item items dev new_RegExp regex_test src] by blast
next
  assume "getCurrentPermissions src = Some held"
  then show "evaluatePermission new_RegExp regex_test dev src
               (JArr [JStr x, Group [y, z] ''and'']) =
             (Inr (x \<in> set held \<or> (y \<in> set held \<and> z \<in> set held)), [])"
    by (simp add: evaluatePermission_list promise_all_def evaluateGroup_Group
          checkPermission_def)
qed

theorem list_or_of_items_witness:
  "fst (validatePermissionFormat True (JArr [JStr ''x'', Group [''y'', ''z''] ''and''])) = Inr True \<and>
   evaluatePermission Inr sublist True (StaticArray [''y'', ''z''])
     (JArr [JStr ''x'', Group [''y'', ''z''] ''and'']) = (Inr True, []) \<and>
   JNull \<notin> set [JNum 3] \<and>
   evaluatePermission Inr sublist True (StaticArray [''y'', ''z'']) (JArr [JNum 3]) =
     (Inr False, [InvalidArrayItem])"
  using list_or_of_items [where items = "[JStr ''x'', Group [''y'', ''z''] ''and'']"
          and dev = True and new_RegExp = Inr and regex_test = sublist
          and src = "StaticArray [''y'', ''z'']" and held = "[''y'', ''z'']"
          and x = "''x''" and y = "''y''" and z = "''z''"]
        list_or_of_items [where items = "[JNum 3]"
          and dev = True and new_RegExp = Inr and regex_test = sublist
          and src = "StaticArray [''y'', ''z'']" and held = "[''y'', ''z'']"
          and x = "''x''" and y = "''y''" and z = "''z''"]
  by (simp add: validatePermissionFormat_def invalid_item_def evaluatePermission_list
        promise_all_def devWarn_def)

end
